theory Spec2Isabelle
  imports Main
begin

section \<open>Data model of the reply bot (reply.py)\<close>

text \<open>
  A Python \<open>str\<close> is a sequence of Unicode code points; a code point is a natural
  number. The zero-width space \<open>U+200B\<close> written by \<open>reply\<close> and the reaction
  glyphs do not fit an 8-bit character, so strings are lists of code points.
  \<open>pstr\<close> reads an ASCII literal as such a list.
\<close>

type_synonym codepoint = nat
type_synonym pystr = "codepoint list"

abbreviation pstr :: "string \<Rightarrow> pystr" where
  "pstr s \<equiv> map of_char s"

text \<open>Ids of accounts and posts are strings of the server; the code only compares them.\<close>

type_synonym ident = pystr

text \<open>\<open>post['account']\<close> and \<open>notification['account']\<close>: \<open>{'id': ..., 'acct': ...}\<close>.\<close>

record account =
  account_id :: ident
  account_acct :: pystr

text \<open>An entry of \<open>context['ancestors']\<close>: \<open>post['id']\<close>, \<open>post['account']\<close>.\<close>

record post =
  post_id :: ident
  post_account :: account

text \<open>The result of \<open>pleroma.status_context\<close>: only \<open>context['ancestors']\<close> is read.\<close>

record thread_context =
  ancestors :: "post list"

text \<open>
  \<open>notification['status']\<close>. \<open>in_reply_to_id\<close> is \<open>None\<close> when the mention is not a
  reply.
\<close>

record status =
  status_id :: ident
  status_content :: pystr
  status_in_reply_to_id :: "ident option"

record notification =
  notif_account :: account
  notif_status :: status

text \<open>The options of \<open>self.cfg\<close> that reply.py reads itself.\<close>

record cfg =
  max_thread_length :: int
  strip_paired_punctuation :: bool
  cw :: "pystr option"

text \<open>
  The fields of \<open>ReplyBot\<close> that the handlers read: \<open>self.me\<close>, \<open>self.follows\<close>
  (a frozenset of account ids) and \<open>self.cfg\<close>.
\<close>

record bot =
  me :: ident
  follows :: "ident set"
  bot_cfg :: cfg

section \<open>The thread gate: \<open>check_thread_length\<close>\<close>

text \<open>
  \<^verbatim>\<open>
  posts = 0
  for post in context['ancestors']:
      if post['account']['id'] == self.me:
          posts += 1
      if posts >= self.cfg['max_thread_length']:
          return True
  return False
  \<close>
  The loop is a recursion on the remaining ancestors that carries \<open>posts\<close>. The
  comparison with the threshold is outside the first \<open>if\<close>: it runs after every ancestor.
\<close>

fun check_thread_length_loop :: "bot \<Rightarrow> int \<Rightarrow> post list \<Rightarrow> bool" where
  "check_thread_length_loop b posts [] = False"
| "check_thread_length_loop b posts (p # rest) =
     (let posts' = (if account_id (post_account p) = me b then posts + 1 else posts)
      in if posts' \<ge> max_thread_length (bot_cfg b) then True
         else check_thread_length_loop b posts' rest)"

definition check_thread_length :: "bot \<Rightarrow> thread_context \<Rightarrow> bool" where
  "check_thread_length b context = check_thread_length_loop b 0 (ancestors context)"

text \<open>
  The specification's words, for comparison: the running count of ancestors authored by the
  bot, read after each ancestor scanned, reaches the threshold at some point of the scan.
  \<open>own_count me ps\<close> is the number of posts of \<open>ps\<close> authored by \<open>me\<close>; the running
  count after the \<open>k\<close>-th ancestor is \<open>own_count\<close> of the first \<open>k\<close> ancestors.
\<close>

definition own_count :: "ident \<Rightarrow> post list \<Rightarrow> int" where
  "own_count own ps = int (length (filter (\<lambda>p. account_id (post_account p) = own) ps))"

definition spec_isThreadTooDeep :: "ident \<Rightarrow> thread_context \<Rightarrow> int \<Rightarrow> bool" where
  "spec_isThreadTooDeep own context maxLength =
     list_ex (\<lambda>k. own_count own (take k (ancestors context)) \<ge> maxLength)
       [1 ..< Suc (length (ancestors context))]"

section \<open>The external collaborators\<close>

text \<open>
  The exceptions that matter to the handlers. \<open>pleroma.BadResponse\<close> is the transient
  server error, \<open>pleroma.BadRequest\<close> the rejection of a request; \<open>exc.args\<close> is kept
  because \<open>process_command\<close> reads \<open>exc.args[0]\<close>. \<open>UnboundLocalError\<close>,
  \<open>NameError\<close> and \<open>IndexError\<close> are raised by the interpreter; \<open>OtherError\<close>
  stands for every other exception class, with its name.
\<close>

datatype exc =
    BadResponse
  | BadRequest "pystr list"
  | UnboundLocalError
  | NameError
  | IndexError
  | OtherError pystr

datatype 'a result = Ok 'a | Raise exc

text \<open>
  The trace of a run: every call of a capability of the network client, of the content
  generator, of \<open>anyio.sleep\<close> and of \<open>print\<close>, in the order the calls are made.
  \<^item> \<open>Sleep d\<close> is \<open>anyio.sleep(d)\<close>;
  \<^item> \<open>Print k\<close> is
    \<open>print(f"Received HTTP 500 {k} times in a row, aborting reply attempt.")\<close>;
  \<^item> \<open>Reply st text kw\<close> is \<open>pleroma.reply(st, text)\<close> when \<open>kw = None\<close> and
    \<open>pleroma.reply(st, text, cw=c)\<close> when \<open>kw = Some c\<close>;
  \<^item> \<open>TaskGroup ts\<close> is the \<open>anyio\<close> task group of \<open>process_command\<close> with the calls
    that were handed to \<open>start_soon\<close>, in the order they were handed over. What the
    group does with them is the library's business: the group is one step of the trace.
\<close>

datatype event =
    CallMe
  | CallFollowing ident
  | StatusContext ident
  | Sleep nat
  | Print nat
  | React ident pystr
  | Pin ident
  | Unpin ident
  | Reply status pystr "pystr option option"
  | MakePost
  | TaskGroup "event list"

text \<open>
  The world outside reply.py. Each capability answers a call from the trace so far and
  the arguments of the call: since the trace grows with every call, any sequence of
  answers is some such function. The last three fields are pure helpers that reply.py
  uses and does not define: \<open>utils.extract_post_content\<close>, \<open>utils.remove_mentions\<close>,
  and the case mapping of \<open>str.lower\<close> on text that is not ASCII.
\<close>

record env =
  me_r :: "event list \<Rightarrow> ident result"
  following_r :: "event list \<Rightarrow> ident \<Rightarrow> ident list result"
  status_context_r :: "event list \<Rightarrow> ident \<Rightarrow> thread_context result"
  react_r :: "event list \<Rightarrow> ident \<Rightarrow> pystr \<Rightarrow> unit result"
  pin_r :: "event list \<Rightarrow> ident \<Rightarrow> unit result"
  unpin_r :: "event list \<Rightarrow> ident \<Rightarrow> unit result"
  reply_r :: "event list \<Rightarrow> status \<Rightarrow> pystr \<Rightarrow> pystr option option \<Rightarrow> unit result"
  task_group_r :: "event list \<Rightarrow> event list \<Rightarrow> unit result"
  make_post_r :: "event list \<Rightarrow> cfg \<Rightarrow> pystr result"
  extract_post_content :: "pystr \<Rightarrow> pystr"
  remove_mentions :: "cfg \<Rightarrow> pystr \<Rightarrow> pystr"
  unicode_lower :: "pystr \<Rightarrow> pystr"

section \<open>Strings\<close>

text \<open>The two reaction glyphs, \<open>U+274C\<close> (cross mark) and \<open>U+2705\<close> (check mark).\<close>

definition cross_mark :: pystr where
  "cross_mark = [10060]"

definition check_mark :: pystr where
  "check_mark = [9989]"

definition at_sign :: codepoint where
  "at_sign = 64"

definition zwsp :: codepoint where
  "zwsp = 8203"

text \<open>\<open>toot.replace("@", "@\u200b")\<close>: every \<open>@\<close> is followed by a zero-width space.\<close>

definition replace_at :: "pystr \<Rightarrow> pystr" where
  "replace_at toot = concat (map (\<lambda>c. if c = at_sign then [at_sign, zwsp] else [c]) toot)"

text \<open>
  The class \<open>\s\<close> of a Python 3 pattern on \<open>str\<close>: the Unicode whitespace code points.
\<close>

definition is_space :: "codepoint \<Rightarrow> bool" where
  "is_space c =
     ((9 \<le> c \<and> c \<le> 13) \<or> (28 \<le> c \<and> c \<le> 32) \<or> c = 133 \<or> c = 160 \<or> c = 5760 \<or>
      (8192 \<le> c \<and> c \<le> 8202) \<or> c = 8232 \<or> c = 8233 \<or> c = 8239 \<or> c = 8287 \<or>
      c = 12288)"

text \<open>
  \<open>re.sub(r"^@\S+\s", r"", text)\<close>. Without \<open>re.MULTILINE\<close> the anchor matches at the
  start of the text only, so there is at most one match. \<open>\S+\<close> is greedy: it takes the
  whole run of non-space code points after the \<open>@\<close>; the pattern matches when that run is
  not empty and a space code point follows it, and the match (the \<open>@\<close>, the run and that
  one space) is removed.
\<close>

fun remove_initial_mention :: "pystr \<Rightarrow> pystr" where
  "remove_initial_mention [] = []"
| "remove_initial_mention (c # rest) =
     (if c = at_sign
      then (let run = takeWhile (\<lambda>d. \<not> is_space d) rest;
                after = dropWhile (\<lambda>d. \<not> is_space d) rest
            in if run \<noteq> [] \<and> after \<noteq> [] then tl after else c # rest)
      else c # rest)"

text \<open>
  \<open>text.lower()\<close>. On ASCII text it maps \<open>A\<close>..\<open>Z\<close> to \<open>a\<close>..\<open>z\<close> and leaves the rest;
  on other text it is the Unicode case mapping, which the environment supplies.
\<close>

definition ascii_lower :: "codepoint \<Rightarrow> codepoint" where
  "ascii_lower c = (if 65 \<le> c \<and> c \<le> 90 then c + 32 else c)"

definition str_lower :: "env \<Rightarrow> pystr \<Rightarrow> pystr" where
  "str_lower E text =
     (if list_all (\<lambda>c. c < 128) text then map ascii_lower text else unicode_lower E text)"

section \<open>\<open>extract_toot\<close>\<close>

definition extract_toot :: "env \<Rightarrow> pystr \<Rightarrow> pystr" where
  "extract_toot E toot =
     (let text = extract_post_content E toot;
          text = remove_initial_mention text;
          text = str_lower E text
      in text)"

section \<open>\<open>reply\<close>\<close>

text \<open>
  Lines 85 to 88 of reply.py, the rewriting of the generated text:
  \<^verbatim>\<open>
  if self.cfg['strip_paired_punctuation']:
      toot = PAIRED_PUNCTUATION.sub("", toot)
  toot = toot.replace("@", "@\u200b")  # sanitize mentions
  toot = utils.remove_mentions(self.cfg, toot)
  \<close>
  reply.py neither defines nor imports the name \<open>PAIRED_PUNCTUATION\<close>: when the option
  is on, reading the name raises \<open>NameError\<close>, and none of the later lines runs.
\<close>

definition sanitize :: "env \<Rightarrow> cfg \<Rightarrow> pystr \<Rightarrow> pystr result" where
  "sanitize E c toot =
     (if strip_paired_punctuation c then Raise NameError
      else (let toot = replace_at toot;
                toot = remove_mentions E c toot
            in Ok toot))"

text \<open>
  \<open>reply\<close>: the text generator, the rewriting, and the call that posts the reply. No
  exception is caught here.
\<close>

definition reply :: "env \<Rightarrow> bot \<Rightarrow> notification \<Rightarrow> event list \<Rightarrow> unit result \<times> event list" where
  "reply E b n tr =
     (let tr1 = tr @ [MakePost]
      in case make_post_r E tr (bot_cfg b) of
           Raise e \<Rightarrow> (Raise e, tr1)
         | Ok toot \<Rightarrow>
             (case sanitize E (bot_cfg b) toot of
                Raise e \<Rightarrow> (Raise e, tr1)
              | Ok toot' \<Rightarrow>
                  (let kw = Some (cw (bot_cfg b))
                   in (reply_r E tr1 (notif_status n) toot' kw,
                       tr1 @ [Reply (notif_status n) toot' kw]))))"

section \<open>\<open>process_command\<close>\<close>

text \<open>
  \<^verbatim>\<open>
  for post in context['ancestors']:
      if post['id'] == notification['status']['in_reply_to_id']:
          target_post_id = post['id']
  \<close>
  The local \<open>target_post_id\<close> is unbound (\<open>None\<close> here) until an ancestor matches; the
  loop has no \<open>break\<close>, so a later match overwrites an earlier one.
\<close>

fun find_target :: "ident option \<Rightarrow> ident option \<Rightarrow> post list \<Rightarrow> ident option" where
  "find_target in_reply_to target_post_id [] = target_post_id"
| "find_target in_reply_to target_post_id (p # rest) =
     find_target in_reply_to
       (if Some (post_id p) = in_reply_to then Some (post_id p) else target_post_id) rest"

text \<open>
  Reading the unbound local at line 75 raises \<open>UnboundLocalError\<close> inside the \<open>try\<close>,
  before any call; \<open>except pleroma.BadRequest\<close> does not catch it. In the handler,
  line 78 hands the reaction to \<open>start_soon\<close> first; then, on line 79,
  \<open>exc.args[0]\<close> raises \<open>IndexError\<close> when the exception carries no argument, before
  the reply is handed over: the group has the reaction only, and the error of its body
  leaves it.
\<close>

definition process_command ::
  "env \<Rightarrow> bot \<Rightarrow> thread_context \<Rightarrow> notification \<Rightarrow> pystr \<Rightarrow> event list
     \<Rightarrow> unit result \<times> event list" where
  "process_command E b context n command tr =
     (let post_id = status_id (notif_status n)
      in if account_id (notif_account n) \<notin> follows b
         then (react_r E tr post_id cross_mark, tr @ [React post_id cross_mark])
         else
           (case find_target (status_in_reply_to_id (notif_status n)) None (ancestors context) of
              None \<Rightarrow> (Raise UnboundLocalError, tr)
            | Some target_post_id \<Rightarrow>
                (let tr1 = tr @ [if command = pstr ''pin'' then Pin target_post_id
                                 else Unpin target_post_id]
                 in case (if command = pstr ''pin'' then pin_r E tr target_post_id
                          else unpin_r E tr target_post_id) of
                      Raise e \<Rightarrow>
                        (case e of
                           BadRequest args \<Rightarrow>
                             (case args of
                                [] \<Rightarrow>
                                  (Raise IndexError,
                                   tr1 @ [TaskGroup [React post_id cross_mark]])
                              | msg # _ \<Rightarrow>
                                  (let tasks = [React post_id cross_mark,
                                                Reply (notif_status n) (pstr ''Error: '' @ msg) None]
                                   in (task_group_r E tr1 tasks, tr1 @ [TaskGroup tasks])))
                         | _ \<Rightarrow> (Raise e, tr1))
                    | Ok _ \<Rightarrow> (react_r E tr1 post_id check_mark, tr1 @ [React post_id check_mark]))))"

section \<open>\<open>process_notification\<close>\<close>

text \<open>
  Lines 42 to 50, what \<open>process_notification\<close> does with the context once it is
  fetched: the thread gate, then the command or the reply.
\<close>

definition handle_context ::
  "env \<Rightarrow> bot \<Rightarrow> notification \<Rightarrow> thread_context \<Rightarrow> event list \<Rightarrow> unit result \<times> event list" where
  "handle_context E b n context tr =
     (if check_thread_length b context then (Ok (), tr)
      else (let content = extract_toot E (status_content (notif_status n))
            in if content \<in> {pstr ''pin'', pstr ''unpin''}
               then process_command E b context n content tr
               else reply E b n tr))"

text \<open>
  Lines 25 to 40. \<open>retry_count\<close> is incremented before the call; on
  \<open>pleroma.BadResponse\<close> the function sleeps \<open>2**retry_count\<close> and calls itself while
  \<open>retry_count < 3\<close>, and prints otherwise. Any other exception of the call is not
  caught. The recursion ends because \<open>3 - retry_count\<close> decreases.
\<close>

function process_notification ::
  "env \<Rightarrow> bot \<Rightarrow> notification \<Rightarrow> nat \<Rightarrow> event list \<Rightarrow> unit result \<times> event list" where
  "process_notification E b n retry_count tr =
     (let post_id = status_id (notif_status n);
          retry_count' = retry_count + 1;
          tr1 = tr @ [StatusContext post_id]
      in case status_context_r E tr post_id of
           Raise e \<Rightarrow>
             if e = BadResponse
             then (if retry_count' < 3
                   then process_notification E b n retry_count' (tr1 @ [Sleep (2 ^ retry_count')])
                   else (Ok (), tr1 @ [Print retry_count']))
             else (Raise e, tr1)
         | Ok context \<Rightarrow> handle_context E b n context tr1)"
  by pat_completeness auto
termination
  by (relation "measure (\<lambda>(E, b, n, retry_count, tr). 3 - retry_count)") auto

section \<open>\<open>run\<close>\<close>

text \<open>
  \<^verbatim>\<open>
  async for notification in self.pleroma.stream_mentions():
      await self.process_notification(notification)
  \<close>
  on the notifications that the stream yields, in order. An exception of
  \<open>process_notification\<close> is not caught here: it ends the loop.
\<close>

fun run_loop :: "env \<Rightarrow> bot \<Rightarrow> notification list \<Rightarrow> event list \<Rightarrow> unit result \<times> event list" where
  "run_loop E b [] tr = (Ok (), tr)"
| "run_loop E b (n # ns) tr =
     (case process_notification E b n 0 tr of
        (Raise e, tr') \<Rightarrow> (Raise e, tr')
      | (Ok _, tr') \<Rightarrow> run_loop E b ns tr')"

definition run :: "env \<Rightarrow> cfg \<Rightarrow> notification list \<Rightarrow> unit result \<times> event list" where
  "run E c ns =
     (case me_r E [] of
        Raise e \<Rightarrow> (Raise e, [CallMe])
      | Ok own \<Rightarrow>
          (case following_r E [CallMe] own of
             Raise e \<Rightarrow> (Raise e, [CallMe, CallFollowing own])
           | Ok users \<Rightarrow>
               run_loop E \<lparr>me = own, follows = set users, bot_cfg = c\<rparr> ns
                 [CallMe, CallFollowing own]))"

section \<open>Predicates on traces and texts\<close>

text \<open>The calls of the context-fetch capability and the sleeps, in a trace.\<close>

fun is_fetch :: "event \<Rightarrow> bool" where
  "is_fetch (StatusContext _) = True"
| "is_fetch _ = False"

fun is_sleep :: "event \<Rightarrow> bool" where
  "is_sleep (Sleep _) = True"
| "is_sleep _ = False"

text \<open>
  Every \<open>@\<close> of the text is immediately followed by a zero-width space (and so is not
  the last code point): by recursion on the text here, by position in \<open>at_escaped\<close>.
\<close>

fun at_escaped_from :: "pystr \<Rightarrow> bool" where
  "at_escaped_from [] = True"
| "at_escaped_from [c] = (c \<noteq> at_sign)"
| "at_escaped_from (c # d # rest) = ((c \<noteq> at_sign \<or> d = zwsp) \<and> at_escaped_from (d # rest))"

definition at_escaped :: "pystr \<Rightarrow> bool" where
  "at_escaped t =
     list_all (\<lambda>i. t ! i = at_sign \<longrightarrow> Suc i < length t \<and> t ! Suc i = zwsp)
       [0 ..< length t]"

text \<open>The number of \<open>@\<close> in a text.\<close>

definition count_at :: "pystr \<Rightarrow> nat" where
  "count_at s = length (filter (\<lambda>c. c = at_sign) s)"

section \<open>Example inputs\<close>

text \<open>
  The bot of the specification's example: own id \<open>"42"\<close>, threshold 2, following the
  account \<open>"7"\<close>; a thread with the ancestors 1 (by 42), 2 (by 7) and 3 (by 42), and a
  thread with the single ancestor 1 (by 42).
\<close>

definition example_cfg :: cfg where
  "example_cfg = \<lparr>max_thread_length = 2, strip_paired_punctuation = False, cw = None\<rparr>"

definition example_bot :: bot where
  "example_bot = \<lparr>me = pstr ''42'', follows = {pstr ''7''}, bot_cfg = example_cfg\<rparr>"

definition zero_threshold_bot :: bot where
  "zero_threshold_bot = example_bot\<lparr>bot_cfg := example_cfg\<lparr>max_thread_length := 0\<rparr>\<rparr>"

definition example_post :: "ident \<Rightarrow> ident \<Rightarrow> post" where
  "example_post i a = \<lparr>post_id = i, post_account = \<lparr>account_id = a, account_acct = a\<rparr>\<rparr>"

definition example_context :: thread_context where
  "example_context =
     \<lparr>ancestors = [example_post (pstr ''1'') (pstr ''42''),
                   example_post (pstr ''2'') (pstr ''7''),
                   example_post (pstr ''3'') (pstr ''42'')]\<rparr>"

definition short_context :: thread_context where
  "short_context = \<lparr>ancestors = [example_post (pstr ''1'') (pstr ''42'')]\<rparr>"

definition foreign_context :: thread_context where
  "foreign_context = \<lparr>ancestors = [example_post (pstr ''2'') (pstr ''7'')]\<rparr>"

definition empty_context :: thread_context where
  "empty_context = \<lparr>ancestors = []\<rparr>"

text \<open>A mention by account \<open>a\<close>: the status \<open>i\<close> with the given content and parent.\<close>

definition mention :: "ident \<Rightarrow> ident \<Rightarrow> pystr \<Rightarrow> ident option \<Rightarrow> notification" where
  "mention a i content parent =
     \<lparr>notif_account = \<lparr>account_id = a, account_acct = a\<rparr>,
      notif_status = \<lparr>status_id = i, status_content = content,
                      status_in_reply_to_id = parent\<rparr>\<rparr>"

text \<open>
  A world in which every call succeeds: each context is \<open>short_context\<close>, the generated
  text is \<open>"hi @alice"\<close>, and the pure helpers leave their text as it is.
\<close>

definition quiet_env :: env where
  "quiet_env =
     \<lparr>me_r = (\<lambda>tr. Ok (pstr ''42'')),
      following_r = (\<lambda>tr a. Ok [pstr ''7'']),
      status_context_r = (\<lambda>tr i. Ok short_context),
      react_r = (\<lambda>tr i g. Ok ()),
      pin_r = (\<lambda>tr i. Ok ()),
      unpin_r = (\<lambda>tr i. Ok ()),
      reply_r = (\<lambda>tr st text kw. Ok ()),
      task_group_r = (\<lambda>tr ts. Ok ()),
      make_post_r = (\<lambda>tr c. Ok (pstr ''hi @alice'')),
      extract_post_content = (\<lambda>text. text),
      remove_mentions = (\<lambda>c text. text),
      unicode_lower = (\<lambda>text. text)\<rparr>"

text \<open>Worlds in which the context fetch fails: always with HTTP 500, with HTTP 500 on
  the first call only, and always with a rejection.\<close>

definition always_500_env :: env where
  "always_500_env = quiet_env\<lparr>status_context_r := (\<lambda>tr i. Raise BadResponse)\<rparr>"

definition second_try_env :: env where
  "second_try_env =
     quiet_env\<lparr>status_context_r :=
       (\<lambda>tr i. if list_ex is_fetch tr then Ok short_context else Raise BadResponse)\<rparr>"

definition not_found_env :: env where
  "not_found_env =
     quiet_env\<lparr>status_context_r := (\<lambda>tr i. Raise (BadRequest [pstr ''Record not found'']))\<rparr>"

text \<open>A world in which posting a reply fails.\<close>

definition failing_reply_env :: env where
  "failing_reply_env =
     quiet_env\<lparr>reply_r := (\<lambda>tr st text kw. Raise (OtherError (pstr ''ClientResponseError'')))\<rparr>"

section \<open>Properties of the thread gate\<close>

lemma own_count_Nil: "own_count own [] = 0"
  by (simp add: own_count_def)

lemma own_count_Cons:
  "own_count own (p # ps) =
     (if account_id (post_account p) = own then 1 else 0) + own_count own ps"
  by (simp add: own_count_def)

lemma own_count_nonneg: "0 \<le> own_count own ps"
  by (simp add: own_count_def)

lemma own_count_take_Suc:
  "own_count own (take (Suc k) (p # ps)) =
     (if account_id (post_account p) = own then 1 else 0) + own_count own (take k ps)"
  by (simp add: own_count_Cons)

lemma check_thread_length_loop_step:
  "check_thread_length_loop b posts (p # rest) =
     (max_thread_length (bot_cfg b)
        \<le> posts + (if account_id (post_account p) = me b then 1 else 0) \<or>
      check_thread_length_loop b
        (posts + (if account_id (post_account p) = me b then 1 else 0)) rest)"
  by (auto simp: Let_def)

text \<open>
  The loop started with \<open>posts\<close> already counted answers whether \<open>posts\<close> plus the
  running count reaches the threshold after some ancestor.
\<close>

lemma check_thread_length_loop_iff:
  "check_thread_length_loop b posts ps =
     (\<exists>k. 1 \<le> k \<and> k \<le> length ps \<and>
          posts + own_count (me b) (take k ps) \<ge> max_thread_length (bot_cfg b))"
proof (induction ps arbitrary: posts)
  case Nil
  show ?case by simp
next
  case (Cons p rest)
  let ?d = "(if account_id (post_account p) = me b then 1 else 0) :: int"
  let ?m = "max_thread_length (bot_cfg b)"
  show ?case
  proof (cases "posts + ?d \<ge> ?m")
    case True
    have "1 \<le> (1::nat) \<and> 1 \<le> length (p # rest) \<and>
          posts + own_count (me b) (take 1 (p # rest)) \<ge> ?m"
      using True by (simp add: own_count_Cons own_count_Nil)
    then have "\<exists>k. 1 \<le> k \<and> k \<le> length (p # rest) \<and>
          posts + own_count (me b) (take k (p # rest)) \<ge> ?m"
      by blast
    moreover have "check_thread_length_loop b posts (p # rest)"
      using True by (subst check_thread_length_loop_step) simp
    ultimately show ?thesis by simp
  next
    case False
    have step: "check_thread_length_loop b posts (p # rest) =
                check_thread_length_loop b (posts + ?d) rest"
      using False by (subst check_thread_length_loop_step) simp
    have "(\<exists>k. 1 \<le> k \<and> k \<le> length (p # rest) \<and>
              posts + own_count (me b) (take k (p # rest)) \<ge> ?m) =
          (\<exists>j. 1 \<le> j \<and> j \<le> length rest \<and>
              (posts + ?d) + own_count (me b) (take j rest) \<ge> ?m)"
      (is "?L = ?R")
    proof
      assume ?L
      then obtain k where k: "1 \<le> k" "k \<le> length (p # rest)"
          "posts + own_count (me b) (take k (p # rest)) \<ge> ?m"
        by blast
      from k(1) obtain j where kj: "k = Suc j" by (cases k) auto
      have reach: "(posts + ?d) + own_count (me b) (take j rest) \<ge> ?m"
        using k(3) unfolding kj own_count_take_Suc by (simp add: add.assoc)
      have "j \<noteq> 0"
      proof
        assume "j = 0"
        with reach have "posts + ?d \<ge> ?m" by (simp add: own_count_Nil)
        with False show False by simp
      qed
      then have "1 \<le> j" by simp
      moreover have "j \<le> length rest" using k(2) kj by simp
      ultimately show ?R using reach by blast
    next
      assume ?R
      then obtain j where j: "1 \<le> j" "j \<le> length rest"
          "(posts + ?d) + own_count (me b) (take j rest) \<ge> ?m"
        by blast
      have "posts + own_count (me b) (take (Suc j) (p # rest)) \<ge> ?m"
        using j(3) unfolding own_count_take_Suc by (simp add: add.assoc)
      moreover have "1 \<le> Suc j" "Suc j \<le> length (p # rest)" using j(2) by simp_all
      ultimately show ?L by blast
    qed
    with step Cons.IH [of "posts + ?d"] show ?thesis by simp
  qed
qed

lemma spec_isThreadTooDeep_iff:
  "spec_isThreadTooDeep own context maxLength =
     (\<exists>k. 1 \<le> k \<and> k \<le> length (ancestors context) \<and>
          own_count own (take k (ancestors context)) \<ge> maxLength)"
  by (auto simp: spec_isThreadTooDeep_def list_ex_iff)


lemma own_count_append:
  "own_count own (xs @ ys) = own_count own xs + own_count own ys"
  by (simp add: own_count_def)

lemma own_count_take_le: "own_count own (take k ps) \<le> own_count own ps"
proof -
  have "own_count own ps = own_count own (take k ps) + own_count own (drop k ps)"
    using own_count_append [of own "take k ps" "drop k ps"] by simp
  then show ?thesis using own_count_nonneg [of own "drop k ps"] by simp
qed

text \<open>
  With a threshold of at least 1 the gate compares the threshold with the number of all
  ancestors authored by the bot.
\<close>

lemma check_thread_length_total:
  assumes "1 \<le> max_thread_length (bot_cfg b)"
  shows "check_thread_length b ctx =
     (max_thread_length (bot_cfg b) \<le> own_count (me b) (ancestors ctx))"
proof
  assume "check_thread_length b ctx"
  then obtain k where "max_thread_length (bot_cfg b) \<le> own_count (me b) (take k (ancestors ctx))"
    unfolding check_thread_length_def check_thread_length_loop_iff by auto
  then show "max_thread_length (bot_cfg b) \<le> own_count (me b) (ancestors ctx)"
    using own_count_take_le [of "me b" k "ancestors ctx"] by simp
next
  assume a: "max_thread_length (bot_cfg b) \<le> own_count (me b) (ancestors ctx)"
  with assms have "ancestors ctx \<noteq> []" by (auto simp: own_count_Nil)
  then have "1 \<le> length (ancestors ctx)" by (cases "ancestors ctx") simp_all
  with a have "1 \<le> length (ancestors ctx) \<and> length (ancestors ctx) \<le> length (ancestors ctx) \<and>
      max_thread_length (bot_cfg b)
        \<le> 0 + own_count (me b) (take (length (ancestors ctx)) (ancestors ctx))"
    by simp
  then show "check_thread_length b ctx"
    unfolding check_thread_length_def check_thread_length_loop_iff by blast
qed

text \<open>
  Claim C1. For every thread context and every configured \<open>max_thread_length\<close>,
  \<open>check_thread_length\<close> returns true if and only if, scanning the ancestors in their
  given order, the running count of ancestors authored by the bot's own account id
  reaches \<open>max_thread_length\<close> at some ancestor of the scan; otherwise it returns false.
  For a threshold of at least 1 this is the same as: the number of ancestors authored by
  the bot is at least the threshold.
\<close>

theorem check_thread_length_correct:
  "check_thread_length b ctx =
     spec_isThreadTooDeep (me b) ctx (max_thread_length (bot_cfg b)) \<and>
   (1 \<le> max_thread_length (bot_cfg b) \<longrightarrow>
      check_thread_length b ctx =
        (max_thread_length (bot_cfg b) \<le> own_count (me b) (ancestors ctx)))"
proof (intro conjI impI)
  show "check_thread_length b ctx =
     spec_isThreadTooDeep (me b) ctx (max_thread_length (bot_cfg b))"
    unfolding check_thread_length_def spec_isThreadTooDeep_iff
    by (simp add: check_thread_length_loop_iff)
next
  assume "1 \<le> max_thread_length (bot_cfg b)"
  then show "check_thread_length b ctx =
        (max_thread_length (bot_cfg b) \<le> own_count (me b) (ancestors ctx))"
    by (rule check_thread_length_total)
qed

text \<open>
  The specification's example: own id \<open>"42"\<close>, threshold 2, ancestors by 42, 7 and 42;
  the count reaches 2 at the third ancestor. With the single ancestor by 42 it does not.
\<close>

theorem check_thread_length_correct_witness:
  "1 \<le> max_thread_length (bot_cfg example_bot) \<and>
   check_thread_length example_bot example_context \<and>
   spec_isThreadTooDeep (pstr ''42'') example_context 2 \<and>
   own_count (pstr ''42'') (ancestors example_context) = 2 \<and>
   \<not> check_thread_length example_bot short_context \<and>
   \<not> spec_isThreadTooDeep (pstr ''42'') short_context 2"
  using check_thread_length_correct [where b = example_bot and ctx = example_context]
    check_thread_length_correct [where b = example_bot and ctx = short_context]
  by (simp add: example_bot_def example_cfg_def example_context_def short_context_def
      example_post_def own_count_def check_thread_length_def)

text \<open>
  Claim C10. The comparison with the threshold runs after every ancestor, not only after
  those authored by the bot: for every \<open>max_thread_length\<close> less than or equal to 0,
  \<open>check_thread_length\<close> returns true for every context with at least one ancestor
  (whoever its author is) and false for every context with no ancestor.
\<close>

theorem thread_gate_nonpositive:
  "max_thread_length (bot_cfg b) \<le> 0 \<Longrightarrow>
     check_thread_length b ctx = (ancestors ctx \<noteq> [])"
proof (cases "ancestors ctx")
  case Nil
  then show ?thesis by (simp add: check_thread_length_def)
next
  case (Cons p rest)
  assume "max_thread_length (bot_cfg b) \<le> 0"
  then have "check_thread_length_loop b 0 (p # rest)"
    by (subst check_thread_length_loop_step) simp
  with Cons show ?thesis by (simp add: check_thread_length_def)
qed

theorem thread_gate_nonpositive_witness:
  "max_thread_length (bot_cfg zero_threshold_bot) \<le> 0 \<and>
   check_thread_length zero_threshold_bot foreign_context \<and>
   own_count (me zero_threshold_bot) (ancestors foreign_context) = 0 \<and>
   \<not> check_thread_length zero_threshold_bot empty_context"
  using thread_gate_nonpositive [where b = zero_threshold_bot and ctx = foreign_context]
    thread_gate_nonpositive [where b = zero_threshold_bot and ctx = empty_context]
  by (simp add: zero_threshold_bot_def example_bot_def example_cfg_def foreign_context_def
      empty_context_def example_post_def own_count_def check_thread_length_def)

section \<open>Properties of the retry on the context fetch\<close>

text \<open>
  What follows the fetch (gate, command or reply) only appends to the trace, and appends
  neither a context fetch nor a sleep.
\<close>

lemma process_command_events:
  "\<exists>evs. snd (process_command E b ctx n command tr) = tr @ evs \<and>
         list_all (\<lambda>e. \<not> is_fetch e \<and> \<not> is_sleep e) evs"
  by (auto simp: process_command_def Let_def
      split: option.splits result.splits exc.splits list.splits)

lemma reply_events:
  "\<exists>evs. snd (reply E b n tr) = tr @ evs \<and>
         list_all (\<lambda>e. \<not> is_fetch e \<and> \<not> is_sleep e) evs"
  by (auto simp: reply_def Let_def split: result.splits)

lemma handle_context_events:
  "\<exists>evs. snd (handle_context E b n ctx tr) = tr @ evs \<and>
         list_all (\<lambda>e. \<not> is_fetch e \<and> \<not> is_sleep e) evs"
proof -
  have "handle_context E b n ctx tr = (Ok (), tr) \<or>
        (\<exists>c. handle_context E b n ctx tr = process_command E b ctx n c tr) \<or>
        handle_context E b n ctx tr = reply E b n tr"
    unfolding handle_context_def Let_def by auto
  then show ?thesis
  proof (elim disjE exE)
    assume "handle_context E b n ctx tr = (Ok (), tr)"
    then have "snd (handle_context E b n ctx tr) = tr @ [] \<and>
               list_all (\<lambda>e. \<not> is_fetch e \<and> \<not> is_sleep e) []"
      by simp
    then show ?thesis by blast
  next
    fix c
    assume "handle_context E b n ctx tr = process_command E b ctx n c tr"
    then show ?thesis using process_command_events [of E b ctx n c tr] by simp
  next
    assume "handle_context E b n ctx tr = reply E b n tr"
    then show ?thesis using reply_events [of E b n tr] by simp
  qed
qed

text \<open>Three failures in a row: the third attempt is the last.\<close>

lemma process_notification_three_failures:
  assumes "status_context_r E tr (status_id (notif_status n)) = Raise BadResponse"
    and "status_context_r E (tr @ [StatusContext (status_id (notif_status n)), Sleep 2])
           (status_id (notif_status n)) = Raise BadResponse"
    and "status_context_r E (tr @ [StatusContext (status_id (notif_status n)), Sleep 2,
             StatusContext (status_id (notif_status n)), Sleep 4])
           (status_id (notif_status n)) = Raise BadResponse"
  shows "process_notification E b n 0 tr =
        (Ok (), tr @ [StatusContext (status_id (notif_status n)), Sleep 2,
                      StatusContext (status_id (notif_status n)), Sleep 4,
                      StatusContext (status_id (notif_status n)), Print 3])"
  using assms
  apply (subst process_notification.simps)
  apply (simp add: Let_def del: process_notification.simps)
  apply (subst process_notification.simps)
  apply (simp add: Let_def del: process_notification.simps)
  apply (subst process_notification.simps)
  apply (simp add: Let_def del: process_notification.simps)
  done

text \<open>A failure, then a success: the pipeline goes on with the fetched context.\<close>

lemma process_notification_second_attempt:
  assumes "status_context_r E tr (status_id (notif_status n)) = Raise BadResponse"
    and "status_context_r E (tr @ [StatusContext (status_id (notif_status n)), Sleep 2])
           (status_id (notif_status n)) = Ok ctx"
  shows "process_notification E b n 0 tr =
        handle_context E b n ctx
          (tr @ [StatusContext (status_id (notif_status n)), Sleep 2,
                 StatusContext (status_id (notif_status n))])"
  using assms
  apply (subst process_notification.simps)
  apply (simp add: Let_def del: process_notification.simps)
  apply (subst process_notification.simps)
  apply (simp add: Let_def del: process_notification.simps)
  done

text \<open>
  Claim C2. When the context fetch of a notification raises the transient server error
  on every attempt, processing makes exactly 3 calls of the fetch with exactly two sleeps
  between them, of 2 and of 4 time units, then gives the notification up with the
  diagnostic print and nothing else (no reply, no reaction). When the fetch fails once
  and succeeds on the second attempt, exactly 2 fetch calls and one sleep of 2 time units
  occur, and the pipeline goes on with the fetched context.
\<close>

theorem retry_controller:
  "(status_context_r E tr (status_id (notif_status n)) = Raise BadResponse \<and>
    status_context_r E (tr @ [StatusContext (status_id (notif_status n)), Sleep 2])
      (status_id (notif_status n)) = Raise BadResponse \<and>
    status_context_r E (tr @ [StatusContext (status_id (notif_status n)), Sleep 2,
        StatusContext (status_id (notif_status n)), Sleep 4])
      (status_id (notif_status n)) = Raise BadResponse \<longrightarrow>
    process_notification E b n 0 tr =
      (Ok (), tr @ [StatusContext (status_id (notif_status n)), Sleep 2,
                    StatusContext (status_id (notif_status n)), Sleep 4,
                    StatusContext (status_id (notif_status n)), Print 3])) \<and>
   (status_context_r E tr (status_id (notif_status n)) = Raise BadResponse \<and>
    status_context_r E (tr @ [StatusContext (status_id (notif_status n)), Sleep 2])
      (status_id (notif_status n)) = Ok ctx \<longrightarrow>
    process_notification E b n 0 tr =
      handle_context E b n ctx
        (tr @ [StatusContext (status_id (notif_status n)), Sleep 2,
               StatusContext (status_id (notif_status n))]) \<and>
    (\<exists>evs. snd (process_notification E b n 0 tr) =
        tr @ [StatusContext (status_id (notif_status n)), Sleep 2,
              StatusContext (status_id (notif_status n))] @ evs \<and>
        list_all (\<lambda>e. \<not> is_fetch e \<and> \<not> is_sleep e) evs))"
proof (intro conjI impI)
  assume "status_context_r E tr (status_id (notif_status n)) = Raise BadResponse \<and>
    status_context_r E (tr @ [StatusContext (status_id (notif_status n)), Sleep 2])
      (status_id (notif_status n)) = Raise BadResponse \<and>
    status_context_r E (tr @ [StatusContext (status_id (notif_status n)), Sleep 2,
        StatusContext (status_id (notif_status n)), Sleep 4])
      (status_id (notif_status n)) = Raise BadResponse"
  then show "process_notification E b n 0 tr =
      (Ok (), tr @ [StatusContext (status_id (notif_status n)), Sleep 2,
                    StatusContext (status_id (notif_status n)), Sleep 4,
                    StatusContext (status_id (notif_status n)), Print 3])"
    using process_notification_three_failures by blast
next
  assume a: "status_context_r E tr (status_id (notif_status n)) = Raise BadResponse \<and>
    status_context_r E (tr @ [StatusContext (status_id (notif_status n)), Sleep 2])
      (status_id (notif_status n)) = Ok ctx"
  then show eq: "process_notification E b n 0 tr =
      handle_context E b n ctx
        (tr @ [StatusContext (status_id (notif_status n)), Sleep 2,
               StatusContext (status_id (notif_status n))])"
    using process_notification_second_attempt by blast
  show "\<exists>evs. snd (process_notification E b n 0 tr) =
        tr @ [StatusContext (status_id (notif_status n)), Sleep 2,
              StatusContext (status_id (notif_status n))] @ evs \<and>
        list_all (\<lambda>e. \<not> is_fetch e \<and> \<not> is_sleep e) evs"
    unfolding eq
    using handle_context_events [of E b n ctx
        "tr @ [StatusContext (status_id (notif_status n)), Sleep 2,
               StatusContext (status_id (notif_status n))]"]
    by simp
qed

text \<open>
  A server that always answers HTTP 500, and one that answers it once: in the second
  world the mention is answered after the second fetch.
\<close>

theorem retry_controller_witness:
  "process_notification always_500_env example_bot
     (mention (pstr ''9'') (pstr ''100'') (pstr ''@bot hello'') None) 0 [] =
     (Ok (), [StatusContext (pstr ''100''), Sleep 2, StatusContext (pstr ''100''), Sleep 4,
              StatusContext (pstr ''100''), Print 3]) \<and>
   process_notification second_try_env example_bot
     (mention (pstr ''9'') (pstr ''100'') (pstr ''@bot hello'') None) 0 [] =
     handle_context second_try_env example_bot
       (mention (pstr ''9'') (pstr ''100'') (pstr ''@bot hello'') None) short_context
       [StatusContext (pstr ''100''), Sleep 2, StatusContext (pstr ''100'')]"
  using retry_controller [where E = always_500_env and tr = "[]" and b = example_bot
      and n = "mention (pstr ''9'') (pstr ''100'') (pstr ''@bot hello'') None"
      and ctx = short_context]
    retry_controller [where E = second_try_env and tr = "[]" and b = example_bot
      and n = "mention (pstr ''9'') (pstr ''100'') (pstr ''@bot hello'') None"
      and ctx = short_context]
  by (simp add: always_500_env_def second_try_env_def quiet_env_def mention_def)

section \<open>Properties of the command processor\<close>

text \<open>
  Claim C6. For every command notification (text exactly \<open>"pin"\<close> or \<open>"unpin"\<close>) from
  an account whose id is not in the followed ids, the command processor performs exactly
  one call, the reaction with the failure glyph on the triggering post: no pin, no unpin,
  no reply, whichever command was requested. In the whole pipeline, once the context is
  fetched and the thread gate lets the notification pass, the fetch and that reaction are
  the only calls.
\<close>

theorem unauthorized_command:
  "account_id (notif_account n) \<notin> follows b \<longrightarrow>
     process_command E b ctx n command tr =
       (react_r E tr (status_id (notif_status n)) cross_mark,
        tr @ [React (status_id (notif_status n)) cross_mark]) \<and>
     (status_context_r E tr (status_id (notif_status n)) = Ok ctx \<and>
      \<not> check_thread_length b ctx \<and>
      extract_toot E (status_content (notif_status n)) \<in> {pstr ''pin'', pstr ''unpin''} \<longrightarrow>
        process_notification E b n 0 tr =
          (react_r E (tr @ [StatusContext (status_id (notif_status n))])
             (status_id (notif_status n)) cross_mark,
           tr @ [StatusContext (status_id (notif_status n)),
                 React (status_id (notif_status n)) cross_mark]))"
proof (intro impI conjI)
  assume u: "account_id (notif_account n) \<notin> follows b"
  then show pc: "process_command E b ctx n command tr =
       (react_r E tr (status_id (notif_status n)) cross_mark,
        tr @ [React (status_id (notif_status n)) cross_mark])"
    for tr command
    by (simp add: process_command_def Let_def)
  assume a: "status_context_r E tr (status_id (notif_status n)) = Ok ctx \<and>
      \<not> check_thread_length b ctx \<and>
      extract_toot E (status_content (notif_status n)) \<in> {pstr ''pin'', pstr ''unpin''}"
  have "process_notification E b n 0 tr =
        handle_context E b n ctx (tr @ [StatusContext (status_id (notif_status n))])"
    using a by (subst process_notification.simps) (simp add: Let_def del: process_notification.simps)
  also have "\<dots> = process_command E b ctx n (extract_toot E (status_content (notif_status n)))
        (tr @ [StatusContext (status_id (notif_status n))])"
    using a unfolding handle_context_def Let_def by (simp del: insert_iff)
  finally show "process_notification E b n 0 tr =
          (react_r E (tr @ [StatusContext (status_id (notif_status n))])
             (status_id (notif_status n)) cross_mark,
           tr @ [StatusContext (status_id (notif_status n)),
                 React (status_id (notif_status n)) cross_mark])"
    by (simp add: pc)
qed

text \<open>An \<open>unpin\<close> sent by the account 9, which the bot does not follow.\<close>

theorem unauthorized_command_witness:
  "account_id (notif_account (mention (pstr ''9'') (pstr ''100'') (pstr ''@bot unpin'')
       (Some (pstr ''1'')))) \<notin> follows example_bot \<and>
   process_notification quiet_env example_bot
     (mention (pstr ''9'') (pstr ''100'') (pstr ''@bot unpin'') (Some (pstr ''1''))) 0 [] =
     (Ok (), [StatusContext (pstr ''100''), React (pstr ''100'') cross_mark])"
  using unauthorized_command [where E = quiet_env and b = example_bot and tr = "[]"
      and n = "mention (pstr ''9'') (pstr ''100'') (pstr ''@bot unpin'') (Some (pstr ''1''))"
      and ctx = short_context and command = "pstr ''unpin''"]
  by (simp add: example_bot_def example_cfg_def quiet_env_def mention_def short_context_def
      example_post_def check_thread_length_def extract_toot_def str_lower_def at_sign_def
      is_space_def ascii_lower_def)

text \<open>
  The target loop: it yields the id the status replies to when some ancestor has that
  id, and leaves the local unbound otherwise.
\<close>

lemma find_target_no_match:
  "\<forall>p \<in> set ps. Some (post_id p) \<noteq> in_reply_to \<Longrightarrow>
     find_target in_reply_to target ps = target"
  by (induction ps arbitrary: target) auto

lemma find_target_char:
  "find_target in_reply_to None ps =
     (if \<exists>p \<in> set ps. Some (post_id p) = in_reply_to then in_reply_to else None)"
proof -
  have "find_target in_reply_to target ps =
     (if \<exists>p \<in> set ps. Some (post_id p) = in_reply_to then in_reply_to else target)"
    for target
    by (induction ps arbitrary: target) auto
  then show ?thesis .
qed

text \<open>
  Claim C8. For every authorized command notification whose \<open>in_reply_to_id\<close> matches
  no post id of the ancestors, target resolution yields no target, and the code goes on
  to the pin/unpin call with the target undefined: reading the unbound local raises
  \<open>UnboundLocalError\<close> there, so the command cannot complete (no call is made).
\<close>

theorem unresolved_target:
  "account_id (notif_account n) \<in> follows b \<and>
   (\<forall>p \<in> set (ancestors ctx). Some (post_id p) \<noteq> status_in_reply_to_id (notif_status n))
   \<longrightarrow>
     find_target (status_in_reply_to_id (notif_status n)) None (ancestors ctx) = None \<and>
     process_command E b ctx n command tr = (Raise UnboundLocalError, tr)"
  by (simp add: process_command_def Let_def find_target_no_match)

text \<open>A \<open>pin\<close> by the followed account 7 in a mention that is not a reply.\<close>

theorem unresolved_target_witness:
  "account_id (notif_account (mention (pstr ''7'') (pstr ''100'') (pstr ''@bot pin'') None))
     \<in> follows example_bot \<and>
   map post_id (ancestors short_context) = [pstr ''1''] \<and>
   status_in_reply_to_id
     (notif_status (mention (pstr ''7'') (pstr ''100'') (pstr ''@bot pin'') None)) = None \<and>
   process_command quiet_env example_bot short_context
     (mention (pstr ''7'') (pstr ''100'') (pstr ''@bot pin'') None) (pstr ''pin'') [] =
     (Raise UnboundLocalError, [])"
  using unresolved_target [where E = quiet_env and b = example_bot and tr = "[]"
      and n = "mention (pstr ''7'') (pstr ''100'') (pstr ''@bot pin'') None"
      and ctx = short_context and command = "pstr ''pin''"]
  by (simp add: example_bot_def mention_def short_context_def example_post_def)

text \<open>
  The two other paths of an authorized command with a target. On success the pin call is
  followed by the reaction with the success glyph. On a rejection with a message, the
  reaction with the failure glyph and the reply \<open>'Error: ' + message\<close> are handed to one
  task group, after the pin/unpin call; how the group runs them is not part of reply.py.
\<close>

lemma command_success_path:
  assumes "account_id (notif_account n) \<in> follows b"
    and "find_target (status_in_reply_to_id (notif_status n)) None (ancestors ctx) = Some target"
    and "pin_r E tr target = Ok ()"
  shows "process_command E b ctx n (pstr ''pin'') tr =
     (react_r E (tr @ [Pin target]) (status_id (notif_status n)) check_mark,
      tr @ [Pin target, React (status_id (notif_status n)) check_mark])"
  using assms by (simp add: process_command_def Let_def)

lemma command_rejection_launches_both:
  assumes "account_id (notif_account n) \<in> follows b"
    and "find_target (status_in_reply_to_id (notif_status n)) None (ancestors ctx) = Some target"
    and "(if command = pstr ''pin'' then pin_r E tr target else unpin_r E tr target) =
           Raise (BadRequest (msg # margs))"
  shows "process_command E b ctx n command tr =
     (task_group_r E (tr @ [if command = pstr ''pin'' then Pin target else Unpin target])
        [React (status_id (notif_status n)) cross_mark,
         Reply (notif_status n) (pstr ''Error: '' @ msg) None],
      tr @ [if command = pstr ''pin'' then Pin target else Unpin target,
            TaskGroup [React (status_id (notif_status n)) cross_mark,
                       Reply (notif_status n) (pstr ''Error: '' @ msg) None]])"
  using assms by (simp add: process_command_def Let_def)

text \<open>
  A rejection that carries no message: the reaction is in the group, the reply is not,
  and the \<open>IndexError\<close> of \<open>exc.args[0]\<close> ends the command.
\<close>

lemma command_rejection_without_message:
  assumes "account_id (notif_account n) \<in> follows b"
    and "find_target (status_in_reply_to_id (notif_status n)) None (ancestors ctx) = Some target"
    and "(if command = pstr ''pin'' then pin_r E tr target else unpin_r E tr target) =
           Raise (BadRequest [])"
  shows "process_command E b ctx n command tr =
     (Raise IndexError,
      tr @ [if command = pstr ''pin'' then Pin target else Unpin target,
            TaskGroup [React (status_id (notif_status n)) cross_mark]])"
  using assms by (simp add: process_command_def Let_def)

section \<open>Properties of the mention-text extraction\<close>

text \<open>
  The pattern \<open>^@\S+\s\<close> on a text that starts with \<open>@\<close>, a non-empty handle
  without whitespace and one whitespace code point: exactly that prefix is removed, and
  the rest is kept as it is (a second mention in it stays).
\<close>

lemma remove_initial_mention_match:
  assumes "handle \<noteq> []" and "list_all (\<lambda>d. \<not> is_space d) handle" and "is_space sp"
  shows "remove_initial_mention (at_sign # handle @ sp # rest) = rest"
proof -
  have h: "\<forall>d \<in> set handle. \<not> is_space d" using assms(2) by (simp add: list_all_iff)
  have "takeWhile (\<lambda>d. \<not> is_space d) (handle @ sp # rest) = handle"
    using h assms(3) by (simp add: takeWhile_append2)
  moreover have "dropWhile (\<lambda>d. \<not> is_space d) (handle @ sp # rest) = sp # rest"
    using h assms(3) by (simp add: dropWhile_append2)
  ultimately show ?thesis using assms(1) by (simp add: Let_def)
qed

lemma extract_toot_leading_mention:
  assumes "extract_post_content E toot = at_sign # handle @ sp # rest"
    and "handle \<noteq> []" and "list_all (\<lambda>d. \<not> is_space d) handle" and "is_space sp"
    and "list_all (\<lambda>c. c < 128) rest"
  shows "extract_toot E toot = map ascii_lower rest"
  using assms
  by (simp add: extract_toot_def Let_def remove_initial_mention_match str_lower_def
      del: remove_initial_mention.simps)

text \<open>
  Claim C9. Extraction removes one leading mention from the extracted content and
  lowercases it: when the markup stripper yields \<open>@\<close>, a handle, one whitespace and an
  ASCII rest, the result is the rest in lower case. The raw content
  \<open>"@bot PIN this please"\<close> (which the markup stripper leaves as it is) yields
  \<open>"pin this please"\<close>. That text is neither \<open>"pin"\<close> nor \<open>"unpin"\<close>, so a
  notification with this content does not go to the command processor: it goes to the
  reply, whose first call is the text generator.
\<close>

theorem extract_toot_example:
  "(extract_post_content E toot = at_sign # handle @ sp # rest \<and> handle \<noteq> [] \<and>
    list_all (\<lambda>d. \<not> is_space d) handle \<and> is_space sp \<and> list_all (\<lambda>c. c < 128) rest \<longrightarrow>
      extract_toot E toot = map ascii_lower rest) \<and>
   (extract_post_content E (pstr ''@bot PIN this please'') = pstr ''@bot PIN this please'' \<longrightarrow>
     extract_toot E (pstr ''@bot PIN this please'') = pstr ''pin this please'' \<and>
     pstr ''pin this please'' \<notin> {pstr ''pin'', pstr ''unpin''} \<and>
     (status_content (notif_status n) = pstr ''@bot PIN this please'' \<and>
      \<not> check_thread_length b ctx \<longrightarrow>
        handle_context E b n ctx tr = reply E b n tr \<and>
        (\<exists>evs. snd (handle_context E b n ctx tr) = tr @ MakePost # evs)))"
proof (intro impI conjI)
  assume "extract_post_content E toot = at_sign # handle @ sp # rest \<and> handle \<noteq> [] \<and>
    list_all (\<lambda>d. \<not> is_space d) handle \<and> is_space sp \<and> list_all (\<lambda>c. c < 128) rest"
  then show "extract_toot E toot = map ascii_lower rest"
    by (elim conjE) (rule extract_toot_leading_mention)
next
  assume epc: "extract_post_content E (pstr ''@bot PIN this please'') = pstr ''@bot PIN this please''"
  then show ex: "extract_toot E (pstr ''@bot PIN this please'') = pstr ''pin this please''"
    by (simp add: extract_toot_def str_lower_def at_sign_def is_space_def ascii_lower_def)
  show "pstr ''pin this please'' \<notin> {pstr ''pin'', pstr ''unpin''}" by simp
  assume a: "status_content (notif_status n) = pstr ''@bot PIN this please'' \<and>
      \<not> check_thread_length b ctx"
  have "extract_toot E (status_content (notif_status n)) = pstr ''pin this please''"
    using a ex by simp
  then show hr: "handle_context E b n ctx tr = reply E b n tr"
    using a by (simp add: handle_context_def)
  have "\<exists>evs. snd (reply E b n tr) = tr @ MakePost # evs"
    by (auto simp: reply_def Let_def split: result.splits)
  then show "\<exists>evs. snd (handle_context E b n ctx tr) = tr @ MakePost # evs"
    by (simp add: hr)
qed

theorem extract_toot_example_witness:
  "extract_post_content quiet_env (pstr ''@bot PIN this please'') = pstr ''@bot PIN this please'' \<and>
   extract_toot quiet_env (pstr ''@bot PIN this please'') = pstr ''pin this please'' \<and>
   \<not> check_thread_length example_bot short_context \<and>
   handle_context quiet_env example_bot
     (mention (pstr ''9'') (pstr ''100'') (pstr ''@bot PIN this please'') None) short_context [] =
   reply quiet_env example_bot
     (mention (pstr ''9'') (pstr ''100'') (pstr ''@bot PIN this please'') None) []"
  using extract_toot_example [where E = quiet_env and b = example_bot and tr = "[]"
      and n = "mention (pstr ''9'') (pstr ''100'') (pstr ''@bot PIN this please'') None"
      and ctx = short_context and toot = "pstr ''@bot PIN this please''"
      and handle = "pstr ''bot''" and sp = 32 and rest = "pstr ''PIN this please''"]
  by (simp add: quiet_env_def example_bot_def example_cfg_def short_context_def
      example_post_def mention_def check_thread_length_def is_space_def at_sign_def
      ascii_lower_def)

section \<open>Errors that the handlers do not catch\<close>

text \<open>
  Claim C7, as the code has it. When the context fetch of a notification fails with an
  error of any class other than the transient server error, the fetch is not retried (no
  sleep, no further fetch call) and nothing user-visible happens. The error is not
  caught: \<open>process_notification\<close> ends with it right after the one fetch call, printing
  nothing, and the dispatcher loop ends with the same error without processing the
  notifications that follow.
\<close>

theorem non_transient_fetch_error:
  "status_context_r E tr (status_id (notif_status n)) = Raise e \<and> e \<noteq> BadResponse \<longrightarrow>
     process_notification E b n retry_count tr =
       (Raise e, tr @ [StatusContext (status_id (notif_status n))]) \<and>
     run_loop E b (n # ns) tr = (Raise e, tr @ [StatusContext (status_id (notif_status n))])"
proof (intro impI conjI)
  assume a: "status_context_r E tr (status_id (notif_status n)) = Raise e \<and> e \<noteq> BadResponse"
  then show pn: "process_notification E b n retry_count tr =
       (Raise e, tr @ [StatusContext (status_id (notif_status n))])" for retry_count
    by (subst process_notification.simps) (simp add: Let_def del: process_notification.simps)
  show "run_loop E b (n # ns) tr = (Raise e, tr @ [StatusContext (status_id (notif_status n))])"
    by (simp add: pn del: process_notification.simps)
qed

theorem non_transient_fetch_error_witness:
  "status_context_r not_found_env [] (pstr ''100'') = Raise (BadRequest [pstr ''Record not found'']) \<and>
   run_loop not_found_env example_bot
     [mention (pstr ''9'') (pstr ''100'') (pstr ''@bot hello'') None,
      mention (pstr ''9'') (pstr ''101'') (pstr ''@bot hello'') None] [] =
     (Raise (BadRequest [pstr ''Record not found'']), [StatusContext (pstr ''100'')])"
  using non_transient_fetch_error [where E = not_found_env and b = example_bot and tr = "[]"
      and n = "mention (pstr ''9'') (pstr ''100'') (pstr ''@bot hello'') None"
      and e = "BadRequest [pstr ''Record not found'']"
      and ns = "[mention (pstr ''9'') (pstr ''101'') (pstr ''@bot hello'') None]"]
  by (simp add: not_found_env_def quiet_env_def mention_def
      del: process_notification.simps run_loop.simps)

text \<open>
  Two mentions while the server rejects every context fetch: the run ends with the
  rejection after the first fetch. Nothing is printed, and the context of the second
  mention is never fetched: the rest of the system does not continue.
\<close>

theorem non_transient_fetch_error_counterexample:
  "run not_found_env example_cfg
     [mention (pstr ''9'') (pstr ''100'') (pstr ''@bot hello'') None,
      mention (pstr ''9'') (pstr ''101'') (pstr ''@bot hello'') None] =
     (Raise (BadRequest [pstr ''Record not found'']),
      [CallMe, CallFollowing (pstr ''42''), StatusContext (pstr ''100'')]) \<and>
   StatusContext (pstr ''101'') \<notin> set (snd (run not_found_env example_cfg
     [mention (pstr ''9'') (pstr ''100'') (pstr ''@bot hello'') None,
      mention (pstr ''9'') (pstr ''101'') (pstr ''@bot hello'') None]))"
  by (simp add: run_def not_found_env_def quiet_env_def mention_def Let_def)

text \<open>The loop over a stream that starts with notifications that are all handled.\<close>

lemma run_loop_append_Ok:
  "run_loop E b ms tr = (Ok (), tra) \<Longrightarrow> run_loop E b (ms @ ns) tr = run_loop E b ns tra"
proof (induction ms arbitrary: tr)
  case Nil
  then show ?case by simp
next
  case (Cons m ms)
  obtain r tr' where pm: "process_notification E b m 0 tr = (r, tr')"
    by (cases "process_notification E b m 0 tr")
  show ?case
  proof (cases r)
    case (Ok u)
    with pm Cons.prems have "run_loop E b ms tr' = (Ok (), tra)"
      by (simp del: process_notification.simps)
    then have "run_loop E b (ms @ ns) tr' = run_loop E b ns tra" by (rule Cons.IH)
    with pm Ok show ?thesis by (simp del: process_notification.simps)
  next
    case (Raise e)
    with pm Cons.prems show ?thesis by (simp del: process_notification.simps)
  qed
qed

text \<open>
  Claim C3, as the code has it. The dispatcher loop has no handler of its own. After any
  number of notifications that were handled, a notification whose handling returns
  normally is followed by the processing of the next ones; a notification whose handling
  ends in an error that the handlers do not catch ends the loop with that error, and no
  notification after it is processed (the trace ends where that handling ended).
\<close>

theorem dispatcher_stops_at_first_error:
  "(run_loop E b ms tr = (Ok (), tra) \<and> process_notification E b n 0 tra = (Raise e, trb) \<longrightarrow>
      run_loop E b (ms @ n # ns) tr = (Raise e, trb)) \<and>
   (run_loop E b ms tr = (Ok (), tra) \<and> process_notification E b n 0 tra = (Ok (), trb) \<longrightarrow>
      run_loop E b (ms @ n # ns) tr = run_loop E b ns trb)"
  by (simp add: run_loop_append_Ok del: process_notification.simps)

text \<open>
  Three mentions by the account 9: an unauthorized \<open>pin\<close>, a plain mention, another
  \<open>pin\<close>. Where posting the reply fails the loop ends at the second mention; where it
  succeeds all three are processed.
\<close>

theorem dispatcher_stops_at_first_error_witness:
  "run_loop failing_reply_env example_bot
     [mention (pstr ''9'') (pstr ''100'') (pstr ''@bot pin'') None,
      mention (pstr ''9'') (pstr ''101'') (pstr ''@bot hello'') None,
      mention (pstr ''9'') (pstr ''102'') (pstr ''@bot pin'') None] [] =
     (Raise (OtherError (pstr ''ClientResponseError'')),
      [StatusContext (pstr ''100''), React (pstr ''100'') cross_mark,
       StatusContext (pstr ''101''), MakePost,
       Reply \<lparr>status_id = pstr ''101'', status_content = pstr ''@bot hello'',
               status_in_reply_to_id = None\<rparr>
         [104, 105, 32, 64, 8203, 97, 108, 105, 99, 101] (Some None)]) \<and>
   run_loop quiet_env example_bot
     [mention (pstr ''9'') (pstr ''100'') (pstr ''@bot pin'') None,
      mention (pstr ''9'') (pstr ''101'') (pstr ''@bot hello'') None,
      mention (pstr ''9'') (pstr ''102'') (pstr ''@bot pin'') None] [] =
     (Ok (),
      [StatusContext (pstr ''100''), React (pstr ''100'') cross_mark,
       StatusContext (pstr ''101''), MakePost,
       Reply \<lparr>status_id = pstr ''101'', status_content = pstr ''@bot hello'',
               status_in_reply_to_id = None\<rparr>
         [104, 105, 32, 64, 8203, 97, 108, 105, 99, 101] (Some None),
       StatusContext (pstr ''102''), React (pstr ''102'') cross_mark])"
  using dispatcher_stops_at_first_error [where E = failing_reply_env and b = example_bot
      and tr = "[]" and ms = "[mention (pstr ''9'') (pstr ''100'') (pstr ''@bot pin'') None]"
      and n = "mention (pstr ''9'') (pstr ''101'') (pstr ''@bot hello'') None"
      and ns = "[mention (pstr ''9'') (pstr ''102'') (pstr ''@bot pin'') None]"
      and tra = "[StatusContext (pstr ''100''), React (pstr ''100'') cross_mark]"
      and e = "OtherError (pstr ''ClientResponseError'')"]
    dispatcher_stops_at_first_error [where E = quiet_env and b = example_bot
      and tr = "[]" and ms = "[mention (pstr ''9'') (pstr ''100'') (pstr ''@bot pin'') None]"
      and n = "mention (pstr ''9'') (pstr ''101'') (pstr ''@bot hello'') None"
      and ns = "[mention (pstr ''9'') (pstr ''102'') (pstr ''@bot pin'') None]"
      and tra = "[StatusContext (pstr ''100''), React (pstr ''100'') cross_mark]"]
  by (simp add: failing_reply_env_def quiet_env_def example_bot_def example_cfg_def
      short_context_def example_post_def mention_def check_thread_length_def
      handle_context_def extract_toot_def str_lower_def at_sign_def zwsp_def is_space_def
      ascii_lower_def process_command_def reply_def sanitize_def
      replace_at_def Let_def)

text \<open>
  A run in which posting the reply to the first mention fails: the run ends with that
  error, and the second mention, still to come from the stream, is never processed.
\<close>

theorem dispatcher_isolation_counterexample:
  "run failing_reply_env example_cfg
     [mention (pstr ''9'') (pstr ''101'') (pstr ''@bot hello'') None,
      mention (pstr ''9'') (pstr ''102'') (pstr ''@bot pin'') None] =
     (Raise (OtherError (pstr ''ClientResponseError'')),
      [CallMe, CallFollowing (pstr ''42''), StatusContext (pstr ''101''), MakePost,
       Reply \<lparr>status_id = pstr ''101'', status_content = pstr ''@bot hello'',
               status_in_reply_to_id = None\<rparr>
         [104, 105, 32, 64, 8203, 97, 108, 105, 99, 101] (Some None)]) \<and>
   StatusContext (pstr ''102'') \<notin> set (snd (run failing_reply_env example_cfg
     [mention (pstr ''9'') (pstr ''101'') (pstr ''@bot hello'') None,
      mention (pstr ''9'') (pstr ''102'') (pstr ''@bot pin'') None]))"
  by (simp add: run_def failing_reply_env_def quiet_env_def example_cfg_def
      short_context_def example_post_def mention_def check_thread_length_def
      handle_context_def extract_toot_def str_lower_def at_sign_def zwsp_def is_space_def
      ascii_lower_def process_command_def reply_def sanitize_def
      replace_at_def Let_def)

section \<open>Properties of the reply sanitization\<close>

lemma replace_at_Nil: "replace_at [] = []"
  by (simp add: replace_at_def)

lemma replace_at_Cons:
  "replace_at (c # s) = (if c = at_sign then at_sign # zwsp # replace_at s else c # replace_at s)"
  by (simp add: replace_at_def)

lemma zwsp_not_at: "zwsp \<noteq> at_sign"
  by (simp add: zwsp_def at_sign_def)

lemma at_escaped_from_Cons:
  "d \<noteq> at_sign \<Longrightarrow> at_escaped_from rest \<Longrightarrow> at_escaped_from (d # rest)"
  by (cases rest) auto

lemma at_escaped_from_replace_at: "at_escaped_from (replace_at s)"
proof (induction s)
  case Nil
  show ?case by (simp add: replace_at_Nil)
next
  case (Cons c s)
  show ?case
  proof (cases "c = at_sign")
    case True
    have "at_escaped_from (zwsp # replace_at s)"
      using zwsp_not_at Cons.IH by (rule at_escaped_from_Cons)
    with True show ?thesis by (simp add: replace_at_Cons)
  next
    case False
    then have "at_escaped_from (c # replace_at s)"
      using Cons.IH by (rule at_escaped_from_Cons)
    with False show ?thesis by (simp add: replace_at_Cons)
  qed
qed

lemma at_escaped_from_nth:
  "at_escaped_from t \<Longrightarrow> i < length t \<Longrightarrow> t ! i = at_sign \<Longrightarrow>
     Suc i < length t \<and> t ! Suc i = zwsp"
proof (induction t arbitrary: i rule: at_escaped_from.induct)
  case 1
  then show ?case by simp
next
  case (2 c)
  then show ?case by simp
next
  case (3 c d rest)
  show ?case
  proof (cases i)
    case 0
    with "3.prems" show ?thesis by simp
  next
    case (Suc j)
    with "3.prems" have "at_escaped_from (d # rest)" "j < length (d # rest)"
        "(d # rest) ! j = at_sign"
      by simp_all
    then have "Suc j < length (d # rest) \<and> (d # rest) ! Suc j = zwsp"
      by (rule "3.IH")
    with Suc show ?thesis by simp
  qed
qed

text \<open>The rewriting lengthens the text by one code point for each \<open>@\<close>.\<close>

lemma length_replace_at: "length (replace_at s) = length s + count_at s"
  by (induction s) (simp_all add: replace_at_Nil replace_at_Cons count_at_def)

lemma count_at_replace_at: "count_at (replace_at s) = count_at s"
  using zwsp_not_at by (induction s) (simp_all add: replace_at_Nil replace_at_Cons count_at_def)

lemma replace_at_no_at: "at_sign \<notin> set s \<Longrightarrow> replace_at s = s"
  by (induction s) (auto simp: replace_at_Nil replace_at_Cons)

lemma count_at_zero: "(count_at s = 0) = (at_sign \<notin> set s)"
  by (induction s) (auto simp: count_at_def)

lemma replace_at_fixed_iff: "(replace_at (replace_at s) = replace_at s) = (at_sign \<notin> set s)"
proof
  assume "replace_at (replace_at s) = replace_at s"
  then have "length (replace_at (replace_at s)) = length (replace_at s)" by simp
  then have "count_at s = 0"
    by (simp add: length_replace_at count_at_replace_at)
  then show "at_sign \<notin> set s" by (simp add: count_at_zero)
next
  assume "at_sign \<notin> set s"
  then show "replace_at (replace_at s) = replace_at s" by (simp add: replace_at_no_at)
qed

lemma replace_at_twice:
  "replace_at (replace_at s) =
     concat (map (\<lambda>d. if d = at_sign then [at_sign, zwsp, zwsp] else [d]) s)"
  using zwsp_not_at by (induction s) (simp_all add: replace_at_Nil replace_at_Cons)

lemma at_escaped_from_imp_at_escaped: "at_escaped_from t \<Longrightarrow> at_escaped t"
  using at_escaped_from_nth [of t] by (auto simp: at_escaped_def list_all_iff)

lemma at_escaped_replace_at: "at_escaped (replace_at s)"
  by (rule at_escaped_from_imp_at_escaped) (rule at_escaped_from_replace_at)

text \<open>
  With the paired-punctuation strip configured the rewriting does not happen at all: the
  unbound name ends \<open>reply\<close> right after the text generator.
\<close>

lemma reply_strip_configured:
  assumes "strip_paired_punctuation (bot_cfg b)" and "make_post_r E tr (bot_cfg b) = Ok toot"
  shows "reply E b n tr = (Raise NameError, tr @ [MakePost])"
  using assms by (simp add: reply_def sanitize_def)

text \<open>
  Claim C4, as the code has it, with the paired-punctuation strip not configured. The
  sanitization is not idempotent: where the mention removal leaves the rewritten text
  (and the twice rewritten text) as it is, sanitizing the output again puts a second
  zero-width space after every \<open>@\<close>, and gives the same output only when the input has
  no \<open>@\<close>. For every input (so for every input containing \<open>@alice\<close>) every \<open>@\<close> of
  the output is immediately followed by the zero-width space, so none is immediately
  followed by a handle character, provided the mention removal, which is not part of
  reply.py, maps texts with that property to texts with that property.
\<close>

theorem mention_escaping:
  "\<not> strip_paired_punctuation c \<longrightarrow>
     (\<exists>out. sanitize E c toot = Ok out \<and>
        ((\<forall>t. at_escaped t \<longrightarrow> at_escaped (remove_mentions E c t)) \<longrightarrow> at_escaped out) \<and>
        (remove_mentions E c (replace_at toot) = replace_at toot \<and>
         remove_mentions E c (replace_at (replace_at toot)) = replace_at (replace_at toot) \<longrightarrow>
           sanitize E c out =
             Ok (concat (map (\<lambda>d. if d = at_sign then [at_sign, zwsp, zwsp] else [d]) toot)) \<and>
           (sanitize E c out = Ok out) = (at_sign \<notin> set toot)))"
proof
  assume ns: "\<not> strip_paired_punctuation c"
  let ?out = "remove_mentions E c (replace_at toot)"
  have once: "sanitize E c toot = Ok ?out"
    using ns by (simp add: sanitize_def)
  have escaped: "at_escaped ?out"
    if "\<forall>t. at_escaped t \<longrightarrow> at_escaped (remove_mentions E c t)"
    using that at_escaped_replace_at [of toot] by blast
  have twice: "sanitize E c ?out =
        Ok (concat (map (\<lambda>d. if d = at_sign then [at_sign, zwsp, zwsp] else [d]) toot)) \<and>
      (sanitize E c ?out = Ok ?out) = (at_sign \<notin> set toot)"
    if h: "remove_mentions E c (replace_at toot) = replace_at toot \<and>
         remove_mentions E c (replace_at (replace_at toot)) = replace_at (replace_at toot)"
  proof -
    have "sanitize E c ?out = Ok (replace_at (replace_at toot))"
      using ns h by (simp add: sanitize_def)
    then show ?thesis
      using h by (simp add: replace_at_twice [symmetric] replace_at_fixed_iff)
  qed
  from once escaped twice
  show "\<exists>out. sanitize E c toot = Ok out \<and>
        ((\<forall>t. at_escaped t \<longrightarrow> at_escaped (remove_mentions E c t)) \<longrightarrow> at_escaped out) \<and>
        (remove_mentions E c (replace_at toot) = replace_at toot \<and>
         remove_mentions E c (replace_at (replace_at toot)) = replace_at (replace_at toot) \<longrightarrow>
           sanitize E c out =
             Ok (concat (map (\<lambda>d. if d = at_sign then [at_sign, zwsp, zwsp] else [d]) toot)) \<and>
           (sanitize E c out = Ok out) = (at_sign \<notin> set toot))"
    by blast
qed

text \<open>
  The input \<open>"@alice"\<close> where the mention removal changes nothing: the output is
  \<open>@\<close>, the zero-width space, \<open>alice\<close>; sanitized again it has two zero-width spaces.
\<close>

theorem mention_escaping_witness:
  "\<not> strip_paired_punctuation example_cfg \<and>
   sanitize quiet_env example_cfg (pstr ''@alice'') = Ok [64, 8203, 97, 108, 105, 99, 101] \<and>
   at_escaped [64, 8203, 97, 108, 105, 99, 101] \<and>
   sanitize quiet_env example_cfg [64, 8203, 97, 108, 105, 99, 101] =
     Ok [64, 8203, 8203, 97, 108, 105, 99, 101]"
  using mention_escaping [where E = quiet_env and c = example_cfg and toot = "pstr ''@alice''"]
  by (simp add: quiet_env_def example_cfg_def sanitize_def replace_at_def at_sign_def
      zwsp_def)

text \<open>
  With no paired-punctuation strip and a mention removal that leaves the text as it is,
  sanitizing \<open>"@alice"\<close> twice differs from sanitizing it once.
\<close>

theorem sanitize_idempotent_counterexample:
  "sanitize quiet_env example_cfg (pstr ''@alice'') = Ok [64, 8203, 97, 108, 105, 99, 101] \<and>
   sanitize quiet_env example_cfg [64, 8203, 97, 108, 105, 99, 101] \<noteq>
     Ok [64, 8203, 97, 108, 105, 99, 101]"
  by (simp add: sanitize_def quiet_env_def example_cfg_def replace_at_def at_sign_def zwsp_def)

end
